theory Spec2Isabelle
  imports Main "HOL-Library.Sublist"
begin

section \<open>Python strings\<close>

text \<open>
  A Python \<open>str\<close> is modelled as a \<open>string\<close> (a list of characters). The operations
  below are the ones \<open>generate_pptx.py\<close> calls: \<open>sub in s\<close>, \<open>s.find(sub, start)\<close>,
  \<open>s[i:j]\<close>, \<open>s.replace(old, new)\<close> and \<open>s.strip()\<close>.
\<close>

text \<open>Index of the first occurrence of \<open>sub\<close> in \<open>s\<close>, if there is one.\<close>

fun find_idx :: "string \<Rightarrow> string \<Rightarrow> nat option" where
  "find_idx sub [] = (if sub = [] then Some 0 else None)"
| "find_idx sub (c # cs) =
     (if prefix sub (c # cs) then Some 0 else map_option Suc (find_idx sub cs))"

text \<open>\<open>sub in s\<close>.\<close>

definition str_contains :: "string \<Rightarrow> string \<Rightarrow> bool" where
  "str_contains s sub = (find_idx sub s \<noteq> None)"

text \<open>\<open>s.find(sub, start)\<close> for \<open>start \<ge> 0\<close>: the lowest index at or after \<open>start\<close>, or -1.\<close>

definition str_find :: "string \<Rightarrow> string \<Rightarrow> nat \<Rightarrow> int" where
  "str_find s sub start =
     (if length s < start then - 1
      else case find_idx sub (drop start s) of
             None \<Rightarrow> - 1
           | Some i \<Rightarrow> int (start + i))"

text \<open>\<open>s[i:j]\<close>: a negative index counts from the end, and both are clamped to the string.\<close>

definition py_slice :: "string \<Rightarrow> int \<Rightarrow> int \<Rightarrow> string" where
  "py_slice s i j =
     (let n = int (length s);
          a = (if i < 0 then max 0 (n + i) else min i n);
          b = (if j < 0 then max 0 (n + j) else min j n)
      in drop (nat a) (take (nat b) s))"

text \<open>
  \<open>s.replace(old, new)\<close>: the occurrences of \<open>old\<close> are replaced from left to right
  without overlap; an empty \<open>old\<close> matches before every character and at the end.
\<close>

function str_replace :: "string \<Rightarrow> string \<Rightarrow> string \<Rightarrow> string" where
  "str_replace [] old new = (if old = [] then new else [])"
| "str_replace (c # cs) old new =
     (if old = [] then new @ c # str_replace cs old new
      else if prefix old (c # cs) then new @ str_replace (drop (length old) (c # cs)) old new
      else c # str_replace cs old new)"
  by pat_completeness auto
termination
  by (relation "measure (\<lambda>(s, old, new). length s)") auto

text \<open>
  The characters \<open>str.strip()\<close> removes, among the code points below 256: tab, line feed,
  vertical tab, form feed, carriage return, the four separators 28 to 31, space, NEL and
  the no-break space.
\<close>

definition is_space :: "char \<Rightarrow> bool" where
  "is_space c = (of_char c \<in> {9, 10, 11, 12, 13, 28, 29, 30, 31, 32, 133, 160 :: nat})"

definition strip :: "string \<Rightarrow> string" where
  "strip s = rev (dropWhile is_space (rev (dropWhile is_space s)))"

subsection \<open>Facts about the string operations\<close>

lemma find_idx_Some_decomp:
  "find_idx sub s = Some i \<Longrightarrow> \<exists>ss. s = take i s @ sub @ ss \<and> i + length sub \<le> length s"
proof (induction s arbitrary: i)
  case Nil
  then show ?case by (auto split: if_splits)
next
  case (Cons c cs)
  show ?case
  proof (cases "prefix sub (c # cs)")
    case True
    with Cons.prems have "i = 0" by simp
    with True prefix_length_le [OF True] show ?thesis by (auto simp: prefix_def)
  next
    case False
    with Cons.prems obtain j where j: "find_idx sub cs = Some j" "i = Suc j" by auto
    from Cons.IH [OF j(1)] obtain ss where "cs = take j cs @ sub @ ss" "j + length sub \<le> length cs"
      by blast
    with j(2) show ?thesis by auto
  qed
qed

lemma find_idx_None_iff: "find_idx sub s = None \<longleftrightarrow> \<not> sublist sub s"
proof (induction s)
  case Nil
  then show ?case by simp
next
  case (Cons c cs)
  then show ?case by (cases sub) (auto simp: sublist_Cons_right)
qed

lemma str_contains_iff: "str_contains s sub \<longleftrightarrow> sublist sub s"
  by (simp add: str_contains_def find_idx_None_iff)

lemma str_replace_absent: "old \<noteq> [] \<Longrightarrow> \<not> sublist old s \<Longrightarrow> str_replace s old new = s"
proof (induction s)
  case Nil
  then show ?case by simp
next
  case (Cons c cs)
  from Cons.prems(2) have "\<not> prefix old (c # cs)" and "\<not> sublist old cs"
    by (auto simp: sublist_Cons_right)
  with Cons show ?case by simp
qed

lemma str_replace_length_le:
  "old \<noteq> [] \<Longrightarrow> length new \<le> length old \<Longrightarrow> length (str_replace s old new) \<le> length s"
proof (induction s old new rule: str_replace.induct)
  case (1 old new)
  then show ?case by simp
next
  case (2 c cs old new)
  show ?case
  proof (cases "prefix old (c # cs)")
    case True
    with 2 prefix_length_le [OF True] show ?thesis by simp
  next
    case False
    with 2 show ?thesis by simp
  qed
qed

lemma str_replace_length_less:
  "old \<noteq> [] \<Longrightarrow> length new < length old \<Longrightarrow> sublist old s \<Longrightarrow>
   length (str_replace s old new) < length s"
proof (induction s old new rule: str_replace.induct)
  case (1 old new)
  then show ?case by simp
next
  case (2 c cs old new)
  show ?case
  proof (cases "prefix old (c # cs)")
    case True
    have "length (str_replace (drop (length old) (c # cs)) old new) \<le> length (drop (length old) (c # cs))"
      using 2(4,5) by (intro str_replace_length_le) auto
    with True 2(4,5) prefix_length_le [OF True] show ?thesis by simp
  next
    case False
    with 2(6) have "sublist old cs" by (auto simp: sublist_Cons_right)
    with 2 False show ?thesis by simp
  qed
qed

lemma str_replace_empty_shape: "\<exists>r. str_replace s [] (n # new) = n # r"
  by (cases s) auto

lemma str_replace_empty_no_open:
  "find_idx ''{{'' (str_replace s [] ''n/a'') = None"
proof (induction s)
  case Nil
  then show ?case by simp
next
  case (Cons c cs)
  obtain r where r: "str_replace cs [] ''n/a'' = CHR ''n'' # r"
    using str_replace_empty_shape by blast
  with Cons show ?case by simp
qed

section \<open>Python values\<close>

text \<open>
  The values \<open>json.loads\<close> returns and the code handles: strings, numbers, booleans,
  \<open>None\<close>, lists and dictionaries. A float is identified by its \<open>repr\<close>, which is what
  \<open>str\<close> returns for it. A \<open>dict\<close> keeps its keys in insertion order, which is the order
  \<open>.keys()\<close> and \<open>.items()\<close> iterate in, so it is an association list; its keys are
  distinct in Python, and a lookup reads the first entry of a key.
\<close>

datatype pyval =
    PStr string
  | PInt int
  | PFloat string
  | PBool bool
  | PNone
  | PList "pyval list"
  | PDict "(string \<times> pyval) list"

type_synonym dict = "(string \<times> pyval) list"

text \<open>\<open>d.get(k, dflt)\<close>.\<close>

definition dict_get :: "dict \<Rightarrow> string \<Rightarrow> pyval \<Rightarrow> pyval" where
  "dict_get d k dflt = (case map_of d k of None \<Rightarrow> dflt | Some v \<Rightarrow> v)"

text \<open>\<open>d[k] = v\<close>: an existing key keeps its position, a new key goes to the end.\<close>

fun dict_set :: "dict \<Rightarrow> string \<Rightarrow> pyval \<Rightarrow> dict" where
  "dict_set [] k v = [(k, v)]"
| "dict_set ((k', v') # d) k v = (if k' = k then (k, v) # d else (k', v') # dict_set d k v)"

text \<open>\<open>isinstance(v, list)\<close>, \<open>isinstance(v, dict)\<close>, and the elements of a list or dict.\<close>

definition is_list :: "pyval \<Rightarrow> bool" where
  "is_list v = (case v of PList _ \<Rightarrow> True | _ \<Rightarrow> False)"

definition is_dict :: "pyval \<Rightarrow> bool" where
  "is_dict v = (case v of PDict _ \<Rightarrow> True | _ \<Rightarrow> False)"

definition list_items :: "pyval \<Rightarrow> pyval list" where
  "list_items v = (case v of PList xs \<Rightarrow> xs | _ \<Rightarrow> [])"

definition dict_items :: "pyval \<Rightarrow> dict" where
  "dict_items v = (case v of PDict d \<Rightarrow> d | _ \<Rightarrow> [])"

text \<open>
  \<open>str(v)\<close>. The decimal digits of an integer are computed; \<open>str\<close> of a list or a dict
  is Python's \<open>repr\<close> of the container, which the code never inspects: it is the
  parameter \<open>container_str\<close> of the model, and every theorem below holds for any such
  function.
\<close>

function dec_nat :: "nat \<Rightarrow> string" where
  "dec_nat n =
     (if n < 10 then [''0123456789'' ! n]
      else dec_nat (n div 10) @ [''0123456789'' ! (n mod 10)])"
  by pat_completeness auto
termination
  by (relation "measure id") auto

declare dec_nat.simps [simp del]

definition dec_int :: "int \<Rightarrow> string" where
  "dec_int i = (if i < 0 then CHR ''-'' # dec_nat (nat (- i)) else dec_nat (nat i))"

fun py_str :: "(pyval \<Rightarrow> string) \<Rightarrow> pyval \<Rightarrow> string" where
  "py_str container_str (PStr s) = s"
| "py_str container_str (PInt i) = dec_int i"
| "py_str container_str (PFloat r) = r"
| "py_str container_str (PBool b) = (if b then ''True'' else ''False'')"
| "py_str container_str PNone = ''None''"
| "py_str container_str v = container_str v"

text \<open>The exceptions the code can raise on the paths modelled here.\<close>

datatype error = IndexError | AttributeError | ZeroDivisionError | TypeError

section \<open>The document model\<close>

text \<open>
  The program works on the object model of the \<open>python-pptx\<close> library: a presentation
  is a sequence of slides, a slide a sequence of shapes, a shape with a text frame holds
  paragraphs, a paragraph holds runs, and a table holds rows of cells, each cell with a
  text frame of its own. The records keep the attributes the program reads or writes.

  A length (a font size, a position) is an integer number of English Metric Units, as
  \<open>pptx.util.Length\<close> is; \<open>Pt(n)\<close> is \<open>12700 * n\<close>. An attribute that can be unset
  (\<open>None\<close>) is an \<open>option\<close>. The sizes the program writes are \<open>Pt(11)\<close> and sizes it
  read from the document, which are whole hundredths of a point, so the library's
  rounding of a stored size changes none of them.
\<close>

record run =
  run_text :: string
  font_size :: "int option"
  font_bold :: "bool option"

text \<open>
  \<open>paragraph.runs\<close> and \<open>paragraph.font\<close> (the paragraph's default run properties).
  Line breaks and fields inside a paragraph are not runs; the program never reaches
  them, and the model leaves them out.
\<close>

record text_paragraph =
  runs :: "run list"
  para_font_size :: "int option"
  para_font_bold :: "bool option"

text \<open>A cell is its \<open>text_frame.paragraphs\<close>.\<close>

type_synonym cell = "text_paragraph list"

text \<open>
  A table with the position and size of its graphic frame, the text of the
  \<open>a:tableStyleId\<close> element, and \<open>table.rows\<close>, each row being its \<open>cells\<close>.
\<close>

record table =
  frame_left :: int
  frame_top :: int
  frame_width :: int
  frame_height :: int
  style_id :: "string option"
  rows :: "cell list list"

text \<open>
  A shape: one with a text frame (\<open>has_text_frame\<close>), a graphic frame holding a table
  (\<open>has_table\<close>), or any other shape (a picture, a connector, a group, a chart), for
  which both properties are false.
\<close>

datatype shape = TextShape "text_paragraph list" | TableShape table | OtherShape

type_synonym slide = "shape list"

definition Pt :: "int \<Rightarrow> int" where
  "Pt points = 12700 * points"

subsection \<open>Reading and writing cell text\<close>

text \<open>
  \<open>cell.text\<close> reads the paragraphs joined by line feeds. Assigning \<open>cell.text = s\<close>
  discards the paragraphs of the cell and adds one fresh paragraph per line of \<open>s\<close>,
  holding one unformatted run with the line, or no run at all when the line is empty.
  (A vertical tab inside a line, which the library stores as a line break element and
  reads back as a vertical tab, is kept as a character of the run.)
\<close>

fun join_nl :: "string list \<Rightarrow> string" where
  "join_nl [] = []"
| "join_nl [l] = l"
| "join_nl (l # ls) = l @ CHR 0x0A # join_nl ls"

fun split_nl :: "string \<Rightarrow> string list" where
  "split_nl [] = [[]]"
| "split_nl (c # cs) =
     (if c = CHR 0x0A then [] # split_nl cs
      else case split_nl cs of [] \<Rightarrow> [[c]] | l # ls \<Rightarrow> (c # l) # ls)"

definition paragraph_text :: "text_paragraph \<Rightarrow> string" where
  "paragraph_text p = concat (map run_text (runs p))"

definition cell_text :: "cell \<Rightarrow> string" where
  "cell_text c = join_nl (map paragraph_text c)"

definition new_paragraph :: "string \<Rightarrow> text_paragraph" where
  "new_paragraph line =
     \<lparr>runs = (if line = [] then []
              else [\<lparr>run_text = line, font_size = None, font_bold = None\<rparr>]),
      para_font_size = None, para_font_bold = None\<rparr>"

definition set_text :: "string \<Rightarrow> cell" where
  "set_text s = map new_paragraph (split_nl s)"

text \<open>
  \<open>table.cell(row_idx, col_idx)\<close> raises \<open>IndexError\<close> outside the table; so does the
  assignment \<open>table.cell(row_idx, col_idx).text = s\<close>.
\<close>

definition table_cell :: "table \<Rightarrow> nat \<Rightarrow> nat \<Rightarrow> error + cell" where
  "table_cell t row_idx col_idx =
     (if row_idx < length (rows t) \<and> col_idx < length (rows t ! row_idx)
      then Inr (rows t ! row_idx ! col_idx) else Inl IndexError)"

definition set_cell_text :: "table \<Rightarrow> nat \<Rightarrow> nat \<Rightarrow> string \<Rightarrow> error + table" where
  "set_cell_text t row_idx col_idx s =
     (if row_idx < length (rows t) \<and> col_idx < length (rows t ! row_idx)
      then Inr (t\<lparr>rows := (rows t)[row_idx := (rows t ! row_idx)[col_idx := set_text s]]\<rparr>)
      else Inl IndexError)"

text \<open>
  \<open>slide.shapes.add_table(rows, cols, left, top, width, height)\<close> builds a table of
  \<open>rows\<close> by \<open>cols\<close> cells, each with one empty paragraph, under the library's default
  style identifier. The library divides the height by \<open>rows\<close> and the width by \<open>cols\<close>,
  so a count of zero raises \<open>ZeroDivisionError\<close>. The new graphic frame is appended after
  the last shape of the slide; in the model the caller does that (see \<open>table_pass\<close>).
\<close>

definition add_table :: "nat \<Rightarrow> nat \<Rightarrow> int \<Rightarrow> int \<Rightarrow> int \<Rightarrow> int \<Rightarrow> error + table" where
  "add_table n_rows n_cols x y cx cy =
     (if n_rows = 0 \<or> n_cols = 0 then Inl ZeroDivisionError
      else Inr \<lparr>frame_left = x, frame_top = y, frame_width = cx, frame_height = cy,
                style_id = Some ''{5C22544A-7EE6-4342-B048-85BDC9FD1C3A}'',
                rows = replicate n_rows (replicate n_cols [new_paragraph []])\<rparr>)"

section \<open>The program\<close>

subsection \<open>\<open>iter_cells\<close>, \<open>set_table_font_size\<close>, \<open>create_table\<close>\<close>

text \<open>
  \<open>iter_cells\<close> yields the cells row by row; the two functions that use it visit every
  run of every paragraph of every cell and assign to its font. \<open>map_runs\<close> is that
  traversal.
\<close>

definition map_runs :: "(run \<Rightarrow> run) \<Rightarrow> table \<Rightarrow> table" where
  "map_runs f t =
     t\<lparr>rows := map (map (map (\<lambda>p. p\<lparr>runs := map f (runs p)\<rparr>))) (rows t)\<rparr>"

definition set_table_font_size :: "table \<Rightarrow> int \<Rightarrow> table" where
  "set_table_font_size t fs = map_runs (\<lambda>r. r\<lparr>font_size := Some (Pt fs)\<rparr>) t"

text \<open>
  \<open>create_table\<close>: add the table, write the configured style identifier
  \<open>PPTX_TABLE_STYLE_ID\<close> (an environment variable, unset when \<open>None\<close>) into the style
  element, then assign the font size and the bold flag to every run of the new table.
\<close>

definition create_table ::
  "string option \<Rightarrow> nat \<Rightarrow> nat \<Rightarrow> int \<Rightarrow> int \<Rightarrow> int \<Rightarrow> int \<Rightarrow> int option \<Rightarrow> bool option
   \<Rightarrow> error + table" where
  "create_table PPTX_TABLE_STYLE_ID n_rows n_cols x y cx cy fs fb =
     (case add_table n_rows n_cols x y cx cy of
        Inl e \<Rightarrow> Inl e
      | Inr new_table \<Rightarrow>
          Inr (map_runs (\<lambda>r. r\<lparr>font_size := fs, font_bold := fb\<rparr>)
                 (new_table\<lparr>style_id := PPTX_TABLE_STYLE_ID\<rparr>)))"

subsection \<open>\<open>process_table_placeholder\<close>\<close>

text \<open>The loop over \<open>enumerate(headers)\<close> that writes row 0.\<close>

fun insert_headers :: "table \<Rightarrow> nat \<Rightarrow> string list \<Rightarrow> error + table" where
  "insert_headers t col_idx [] = Inr t"
| "insert_headers t col_idx (header # headers) =
     (case set_cell_text t 0 col_idx header of
        Inl e \<Rightarrow> Inl e
      | Inr t' \<Rightarrow> insert_headers t' (Suc col_idx) headers)"

text \<open>
  The inner loop of the data rows: \<open>cell.text = str(item.get(header, ""))\<close>. An item that
  is not a dictionary has no \<open>get\<close>: \<open>AttributeError\<close>.
\<close>

fun insert_item ::
  "(pyval \<Rightarrow> string) \<Rightarrow> table \<Rightarrow> nat \<Rightarrow> nat \<Rightarrow> pyval \<Rightarrow> string list \<Rightarrow> error + table" where
  "insert_item cs t row_idx col_idx item [] = Inr t"
| "insert_item cs t row_idx col_idx item (header # headers) =
     (if \<not> is_dict item then Inl AttributeError
      else case set_cell_text t row_idx col_idx
                  (py_str cs (dict_get (dict_items item) header (PStr ''''))) of
             Inl e \<Rightarrow> Inl e
           | Inr t' \<Rightarrow> insert_item cs t' row_idx (Suc col_idx) item headers)"

text \<open>The outer loop over \<open>enumerate(value, start=1)\<close>.\<close>

fun insert_rows ::
  "(pyval \<Rightarrow> string) \<Rightarrow> table \<Rightarrow> nat \<Rightarrow> pyval list \<Rightarrow> string list \<Rightarrow> error + table" where
  "insert_rows cs t row_idx [] headers = Inr t"
| "insert_rows cs t row_idx (item # items) headers =
     (case insert_item cs t row_idx 0 item headers of
        Inl e \<Rightarrow> Inl e
      | Inr t' \<Rightarrow> insert_rows cs t' (Suc row_idx) items headers)"

text \<open>
  What the function did to the slide: it kept the table shape (changed in place, or
  untouched), or it removed the shape and added a new table.
\<close>

datatype outcome = Kept table | Replaced table

text \<open>
  \<open>process_table_placeholder(table, content, slide)\<close>. The placeholder name is the
  anchor cell's text without its first 8 and last 2 characters, stripped. The three
  exits of the source are the three branches: the fallback (the value is not a
  non-empty list), the expansion (its first element is a dictionary), and the silent
  return. The font is read from \<open>paragraphs[0]\<close> of the anchor cell.
\<close>

definition process_table_placeholder ::
  "(pyval \<Rightarrow> string) \<Rightarrow> string option \<Rightarrow> table \<Rightarrow> dict \<Rightarrow> error + outcome" where
  "process_table_placeholder cs PPTX_TABLE_STYLE_ID t content =
     (case table_cell t 0 0 of
        Inl e \<Rightarrow> Inl e
      | Inr anchor \<Rightarrow>
          let placeholder_name = strip (py_slice (cell_text anchor) 8 (- 2));
              v = dict_get content placeholder_name (PList [])
          in if \<not> is_list v \<or> list_items v = [] then
               (case set_cell_text t 0 0 ''n/a'' of
                  Inl e \<Rightarrow> Inl e
                | Inr t' \<Rightarrow> Inr (Kept (set_table_font_size t' 11)))
             else if is_dict (hd (list_items v)) then
               (let headers = map fst (dict_items (hd (list_items v)));
                    n_rows = length (list_items v) + 1;
                    n_cols = length headers
                in case anchor of
                     [] \<Rightarrow> Inl IndexError
                   | p0 # _ \<Rightarrow>
                       (case create_table PPTX_TABLE_STYLE_ID n_rows n_cols
                               (frame_left t) (frame_top t) (frame_width t) (frame_height t)
                               (para_font_size p0) (para_font_bold p0) of
                          Inl e \<Rightarrow> Inl e
                        | Inr new_table \<Rightarrow>
                            (case insert_headers new_table 0 headers of
                               Inl e \<Rightarrow> Inl e
                             | Inr t1 \<Rightarrow>
                                 (case insert_rows cs t1 1 (list_items v) headers of
                                    Inl e \<Rightarrow> Inl e
                                  | Inr t2 \<Rightarrow> Inr (Replaced (set_table_font_size t2 11))))))
             else Inr (Kept t))"

subsection \<open>\<open>process_text_placeholders\<close>\<close>

text \<open>The first loop: every key of the content map, in order, replaced where its tag occurs.\<close>

fun replace_known :: "(pyval \<Rightarrow> string) \<Rightarrow> dict \<Rightarrow> string \<Rightarrow> string" where
  "replace_known cs [] fulltext = fulltext"
| "replace_known cs ((placeholder_name, v) # items) fulltext =
     (let placeholder_tag = ''{{'' @ placeholder_name @ ''}}''
      in replace_known cs items
           (if str_contains fulltext placeholder_tag
            then str_replace fulltext placeholder_tag (py_str cs v)
            else fulltext))"

text \<open>
  The second loop replaces what is left:
  \<^verbatim>\<open>
  while "{{" in fulltext and "}}" in fulltext:
      start_idx = fulltext.find("{{")
      end_idx = fulltext.find("}}", start_idx) + 2
      placeholder_tag = fulltext[start_idx:end_idx]
      fulltext = fulltext.replace(placeholder_tag, "n/a")
  \<close>
  It is a recursive function, and it terminates on every text: when a close marker
  follows the first open marker the tag has at least four characters and the text gets
  shorter; when none follows, \<open>find\<close> returns -1, \<open>end_idx\<close> is 1, the tag is the empty
  string, and after \<open>replace\<close> has put \<open>"n/a"\<close> around every character no open marker
  is left. The measure below decreases in both cases.
\<close>

text \<open>
  The measure: the length of the text, counted only while the loop condition holds.
\<close>

definition fallback_measure :: "string \<Rightarrow> nat" where
  "fallback_measure t =
     (if str_contains t ''{{'' \<and> str_contains t ''}}'' then Suc (length t) else 0)"

lemma fallback_step:
  assumes op: "str_contains t ''{{''" and cl: "str_contains t ''}}''"
  defines "start_idx \<equiv> str_find t ''{{'' 0"
  defines "end_idx \<equiv> str_find t ''}}'' (nat start_idx) + 2"
  defines "tag \<equiv> py_slice t start_idx end_idx"
  shows "\<not> str_contains (str_replace t tag ''n/a'') ''{{'' \<or>
         length (str_replace t tag ''n/a'') < length t"
proof -
  from op obtain i where i: "find_idx ''{{'' t = Some i"
    by (auto simp: str_contains_def)
  from find_idx_Some_decomp [OF i] obtain ss where
    ss: "t = take i t @ ''{{'' @ ss" and ile: "i + 2 \<le> length t" by auto
  have start: "start_idx = int i" by (simp add: start_idx_def str_find_def i)
  have "drop i t = drop i (take i t @ ''{{'' @ ss)" using ss by simp
  also have "\<dots> = ''{{'' @ ss" using ile by simp
  finally have dr: "drop i t = ''{{'' @ ss" .
  show ?thesis
  proof (cases "find_idx ''}}'' (drop i t)")
    case None
    have "i \<noteq> 0"
    proof
      assume "i = 0"
      with None cl show False by (simp add: str_contains_def)
    qed
    moreover have "end_idx = 1" using None ile by (simp add: end_idx_def start str_find_def)
    ultimately have "tag = []" by (simp add: tag_def start py_slice_def Let_def min_def)
    then show ?thesis by (simp add: str_contains_def str_replace_empty_no_open)
  next
    case (Some k)
    from Some dr have k2: "2 \<le> k" by (auto split: if_splits)
    from find_idx_Some_decomp [OF Some] have kle: "k + 2 \<le> length (drop i t)" by auto
    have e: "end_idx = int (i + k + 2)" using Some ile by (simp add: end_idx_def start str_find_def)
    have n: "nat (2 + (int i + int k)) = Suc (Suc (i + k))" by arith
    have tg: "tag = drop i (take (i + k + 2) t)"
      using kle by (simp add: tag_def start e py_slice_def Let_def min_def n)
    have len: "length tag = k + 2" using kle by (simp add: tg)
    have "sublist tag t" unfolding tg
      by (meson sublist_drop sublist_take sublist_order.order.trans)
    with len k2 have "length (str_replace t tag ''n/a'') < length t"
      by (intro str_replace_length_less) auto
    then show ?thesis by simp
  qed
qed

function fallback_loop :: "string \<Rightarrow> string" where
  "fallback_loop fulltext =
     (if str_contains fulltext ''{{'' \<and> str_contains fulltext ''}}'' then
        (let start_idx = str_find fulltext ''{{'' 0;
             end_idx = str_find fulltext ''}}'' (nat start_idx) + 2;
             placeholder_tag = py_slice fulltext start_idx end_idx
         in fallback_loop (str_replace fulltext placeholder_tag ''n/a''))
      else fulltext)"
  by pat_completeness auto
termination
proof (relation "measure fallback_measure")
  show "wf (measure fallback_measure)" by simp
next
  fix fulltext start_idx end_idx placeholder_tag
  assume c: "str_contains fulltext ''{{'' \<and> str_contains fulltext ''}}''"
    and "start_idx = str_find fulltext ''{{'' 0"
    and "end_idx = str_find fulltext ''}}'' (nat start_idx) + 2"
    and "placeholder_tag = py_slice fulltext start_idx end_idx"
  with fallback_step [of fulltext]
  show "(str_replace fulltext placeholder_tag ''n/a'', fulltext) \<in> measure fallback_measure"
    by (auto simp: fallback_measure_def)
qed

declare fallback_loop.simps [simp del]

definition resolve_text :: "(pyval \<Rightarrow> string) \<Rightarrow> dict \<Rightarrow> string \<Rightarrow> string" where
  "resolve_text cs content fulltext = fallback_loop (replace_known cs content fulltext)"

text \<open>
  The body of the loop over the paragraphs: join the runs, resolve, clear every run,
  and give the text to the first run if there is one.
\<close>

definition process_paragraph ::
  "(pyval \<Rightarrow> string) \<Rightarrow> dict \<Rightarrow> text_paragraph \<Rightarrow> text_paragraph" where
  "process_paragraph cs content p =
     (let fulltext = concat (map run_text (runs p));
          fulltext' = resolve_text cs content fulltext;
          cleared = map (\<lambda>r. r\<lparr>run_text := ''''\<rparr>) (runs p)
      in p\<lparr>runs := (case cleared of [] \<Rightarrow> [] | r # rs \<Rightarrow> r\<lparr>run_text := fulltext'\<rparr> # rs)\<rparr>)"


subsection \<open>\<open>generate_ppt\<close>\<close>

text \<open>
  The loop over the tables of a slide,
  \<^verbatim>\<open>
  for shape in slide.shapes:
      if shape.has_table:
          process_table_placeholder(shape.table, content, slide)
  \<close>
  runs over the slide's shape tree itself while \<open>process_table_placeholder\<close> removes
  the current shape from it and appends a new one. The library's
  iterator walks the children of the tree element, and when it hands out a shape it
  has already moved to the sibling that follows it at that moment. So removing the
  current shape does not disturb the walk, a table appended while the current shape
  still had a successor is reached later in the same loop, and a walk that has handed
  out the last shape is over, whatever is appended then.

  \<open>visited\<close> holds the shapes that stay before the current one and \<open>rest\<close> the current
  shape and its successors. A pass in which every new table is expanded again never
  ends; the function is partial, and \<open>None\<close> is the loop that does not return.
\<close>

partial_function (option) table_pass ::
  "(pyval \<Rightarrow> string) \<Rightarrow> string option \<Rightarrow> dict \<Rightarrow> shape list \<Rightarrow> shape list
   \<Rightarrow> (error + slide) option" where
  "table_pass cs sid content visited rest =
     (case rest of
        [] \<Rightarrow> Some (Inr visited)
      | cur # after \<Rightarrow>
          (case cur of
             TableShape t \<Rightarrow>
               (case process_table_placeholder cs sid t content of
                  Inl e \<Rightarrow> Some (Inl e)
                | Inr res \<Rightarrow>
                    (case res of
                       Kept t' \<Rightarrow> table_pass cs sid content (visited @ [TableShape t']) after
                     | Replaced new_table \<Rightarrow>
                         (case after of
                            [] \<Rightarrow> Some (Inr (visited @ [TableShape new_table]))
                          | _ # _ \<Rightarrow>
                              table_pass cs sid content visited (after @ [TableShape new_table]))))
           | TextShape ps \<Rightarrow> table_pass cs sid content (visited @ [cur]) after
           | OtherShape \<Rightarrow> table_pass cs sid content (visited @ [cur]) after))"

declare table_pass.simps [code]


text \<open>
  The content map of one record. A record is the dictionary the data source returned.
  \<open>json.loads\<close> is a parameter of the model: \<open>None\<close> is \<open>JSONDecodeError\<close>, which the
  code catches to skip the record (\<open>continue\<close>); a field that is not a string makes
  \<open>json.loads\<close> raise \<open>TypeError\<close>, and so does the assignment \<open>content['jobid'] = jobid\<close>
  when the decoded value is not a dictionary. The result \<open>Inr None\<close> is the skipped
  record.
\<close>

definition inject_job_keys :: "string \<Rightarrow> string \<Rightarrow> pyval \<Rightarrow> error + dict option" where
  "inject_job_keys jobid jobdate content =
     (if is_dict content
      then Inr (Some (dict_set (dict_set (dict_items content) ''jobid'' (PStr jobid))
                        ''jobdate'' (PStr jobdate)))
      else Inl TypeError)"

definition build_content ::
  "(string \<Rightarrow> pyval option) \<Rightarrow> string \<Rightarrow> string \<Rightarrow> dict \<Rightarrow> error + dict option" where
  "build_content json_loads jobid jobdate record =
     (if ''jeschro_content'' \<in> set (map fst record) then
        (case dict_get record ''jeschro_content'' PNone of
           PStr s \<Rightarrow>
             (case json_loads s of
                None \<Rightarrow> Inr None
              | Some content \<Rightarrow> inject_job_keys jobid jobdate content)
         | _ \<Rightarrow> Inl TypeError)
      else inject_job_keys jobid jobdate (PDict []))"




section \<open>Properties of the text resolver\<close>

text \<open>
  The condition of the fallback loop: the text holds an open marker and a close marker,
  in any order.
\<close>

definition marker_pair :: "string \<Rightarrow> bool" where
  "marker_pair t = (str_contains t ''{{'' \<and> str_contains t ''}}'')"

lemma fallback_loop_unfold:
  "fallback_loop t =
     (if marker_pair t then
        fallback_loop (str_replace t
          (py_slice t (str_find t ''{{'' 0)
             (str_find t ''}}'' (nat (str_find t ''{{'' 0)) + 2)) ''n/a'')
      else t)"
  by (subst fallback_loop.simps) (simp add: marker_pair_def Let_def)

lemma fallback_loop_no_pair: "\<not> marker_pair (fallback_loop t)"
proof (induction t rule: fallback_loop.induct)
  case (1 t)
  show ?case
  proof (cases "marker_pair t")
    case True
    then have "str_contains t ''{{'' \<and> str_contains t ''}}''" by (simp add: marker_pair_def)
    from 1 [OF this refl refl refl] True show ?thesis
      by (subst fallback_loop_unfold) simp
  next
    case False
    then show ?thesis by (subst fallback_loop_unfold) simp
  qed
qed

lemma fallback_loop_fixed: "\<not> marker_pair t \<Longrightarrow> fallback_loop t = t"
  by (subst fallback_loop_unfold) simp

lemma tag_needs_pair:
  assumes "str_contains t (''{{'' @ name @ ''}}'')"
  shows "marker_pair t"
proof -
  have a: "sublist ''{{'' (''{{'' @ name @ ''}}'')" by (rule sublist_append_rightI)
  have b: "sublist ''}}'' (''{{'' @ name @ ''}}'')"
    using sublist_append_leftI [of "''}}''" "''{{'' @ name"] by simp
  from assms have "sublist (''{{'' @ name @ ''}}'') t" by (simp add: str_contains_iff)
  with a b have "sublist ''{{'' t" "sublist ''}}'' t"
    by (meson sublist_order.order.trans)+
  then show ?thesis by (simp add: marker_pair_def str_contains_iff)
qed

lemma replace_known_fixed: "\<not> marker_pair t \<Longrightarrow> replace_known cs content t = t"
proof (induction content)
  case Nil
  then show ?case by simp
next
  case (Cons kv content)
  obtain k v where kv: "kv = (k, v)" by (cases kv)
  from Cons.prems have "\<not> str_contains t (''{{'' @ k @ ''}}'')"
    using tag_needs_pair by blast
  with Cons kv show ?case by simp
qed

lemma resolve_text_no_pair: "\<not> marker_pair (resolve_text cs content t)"
  by (simp add: resolve_text_def fallback_loop_no_pair)

lemma resolve_text_idem:
  "resolve_text cs content (resolve_text cs content t) = resolve_text cs content t"
proof -
  have "\<not> marker_pair (resolve_text cs content t)" by (rule resolve_text_no_pair)
  then show ?thesis
    by (metis resolve_text_def replace_known_fixed fallback_loop_fixed)
qed

lemma process_paragraph_runs:
  "runs (process_paragraph cs content p) =
     (case runs p of [] \<Rightarrow> []
      | r # rs \<Rightarrow> r\<lparr>run_text := resolve_text cs content (concat (map run_text (runs p)))\<rparr>
                  # map (\<lambda>r. r\<lparr>run_text := ''''\<rparr>) rs)"
  by (cases "runs p") (simp_all add: process_paragraph_def Let_def)

lemma concat_cleared: "concat (map run_text (map (\<lambda>r. r\<lparr>run_text := ''''\<rparr>) rs)) = []"
  by (induction rs) simp_all

text \<open>
  Claim C6. Resolving a paragraph a second time with the same content map changes
  nothing. It holds for every paragraph, resolvable tokens or not: after the first pass
  the text of the paragraph no longer holds both an open and a close marker, so in the
  second pass no tag of a key occurs in it and the fallback loop does not run. (A lone
  marker can remain, for instance when a substituted value contains one.)
\<close>

theorem process_paragraph_idempotent:
  "process_paragraph cs content (process_paragraph cs content p) = process_paragraph cs content p
   \<and> \<not> marker_pair (concat (map run_text (runs (process_paragraph cs content p))))"
proof (cases "runs p")
  case Nil
  then show ?thesis by (simp add: process_paragraph_def Let_def marker_pair_def str_contains_def)
next
  case (Cons r rs)
  let ?t = "resolve_text cs content (concat (map run_text (runs p)))"
  have rr: "runs (process_paragraph cs content p) = r\<lparr>run_text := ?t\<rparr> # map (\<lambda>r. r\<lparr>run_text := ''''\<rparr>) rs"
    using Cons by (simp add: process_paragraph_runs)
  have ft: "concat (map run_text (runs (process_paragraph cs content p))) = ?t"
    by (simp add: rr concat_cleared del: map_map)
  have "runs (process_paragraph cs content (process_paragraph cs content p))
        = (case runs (process_paragraph cs content p) of [] \<Rightarrow> []
           | r # rs \<Rightarrow> r\<lparr>run_text := resolve_text cs content
                 (concat (map run_text (runs (process_paragraph cs content p))))\<rparr>
                 # map (\<lambda>r. r\<lparr>run_text := ''''\<rparr>) rs)"
    by (rule process_paragraph_runs)
  also have "\<dots> = runs (process_paragraph cs content p)"
    by (simp only: ft resolve_text_idem) (simp add: rr comp_def)
  finally have "runs (process_paragraph cs content (process_paragraph cs content p))
        = runs (process_paragraph cs content p)" .
  moreover have "process_paragraph cs content q = q\<lparr>runs := runs (process_paragraph cs content q)\<rparr>" for q
    by (simp add: process_paragraph_def Let_def)
  ultimately show ?thesis
    by (metis ft resolve_text_no_pair text_paragraph.update_convs(1) text_paragraph.surjective text_paragraph.select_convs)
qed



text \<open>
  The fallback loop returns on every text (it is a total function: see its termination
  proof), and a text with no close marker at all comes back unchanged.
\<close>

lemma fallback_loop_no_close: "\<not> str_contains t ''}}'' \<Longrightarrow> fallback_loop t = t"
  by (rule fallback_loop_fixed) (simp add: marker_pair_def)

text \<open>
  Claim C3. The fallback pass terminates on every text, but a token with no close
  marker after its open marker is not always left as it was. When a close marker stands
  before the open marker, the loop condition holds, \<open>find\<close> returns -1, the tag is the
  empty string, and \<open>replace\<close> puts the fallback literal before every character of the
  text and at its end: the paragraph text \<open>}}{{x\<close> becomes the text below.
\<close>

theorem fallback_loop_unclosed_token:
  "fallback_loop ''}}{{x'' = ''n/a}n/a}n/a{n/a{n/axn/a''"
  by code_simp

section \<open>Properties of the content map and of the batch\<close>

lemma map_of_dict_set: "map_of (dict_set d k v) k' = (if k' = k then Some v else map_of d k')"
  by (induction d) auto

lemma build_content_defined:
  assumes "''jeschro_content'' \<notin> set (map fst record) \<or>
           (map_of record ''jeschro_content'' = Some (PStr s) \<and> json_loads s = Some (PDict d))"
  shows "\<exists>content. build_content json_loads jobid jobdate record = Inr (Some content)"
  using assms
  by (auto simp: build_content_def inject_job_keys_def is_dict_def dict_get_def
      dest: weak_map_of_SomeI map_of_SomeD)

text \<open>
  Claim C7. Whenever a content map is built for a record, it binds the key \<open>jobid\<close> to
  the job identifier and the key \<open>jobdate\<close> to the generation timestamp, whatever the
  record's own content bound them to. (A map is built for every record without the
  content field and for every record whose field decodes to a dictionary:
  \<open>build_content_defined\<close>.)
\<close>

theorem build_content_injects_job_keys:
  assumes "build_content json_loads jobid jobdate record = Inr (Some content)"
  shows "map_of content ''jobid'' = Some (PStr jobid) \<and>
         map_of content ''jobdate'' = Some (PStr jobdate)"
proof -
  from assms obtain c where
    "inject_job_keys jobid jobdate c = Inr (Some content)"
    by (auto simp: build_content_def split: if_splits pyval.splits option.splits)
  then have "content = dict_set (dict_set (dict_items c) ''jobid'' (PStr jobid))
                          ''jobdate'' (PStr jobdate)"
    by (auto simp: inject_job_keys_def split: if_splits)
  then show ?thesis by (simp add: map_of_dict_set)
qed

theorem build_content_injects_job_keys_witness:
  "build_content (\<lambda>s. Some (PDict [(''jobid'', PStr ''old''), (''a'', PInt 1)])) ''J1'' ''2024-01-01 10:00:00''
      [(''jeschro_content'', PStr ''{...}'')]
   = Inr (Some [(''jobid'', PStr ''J1''), (''a'', PInt 1), (''jobdate'', PStr ''2024-01-01 10:00:00'')])
   \<and> map_of [(''jobid'', PStr ''J1''), (''a'', PInt 1), (''jobdate'', PStr ''2024-01-01 10:00:00'')] ''jobid''
       = Some (PStr ''J1'')
   \<and> map_of [(''jobid'', PStr ''J1''), (''a'', PInt 1), (''jobdate'', PStr ''2024-01-01 10:00:00'')] ''jobdate''
       = Some (PStr ''2024-01-01 10:00:00'')"
proof -
  have b: "build_content (\<lambda>s. Some (PDict [(''jobid'', PStr ''old''), (''a'', PInt 1)])) ''J1'' ''2024-01-01 10:00:00''
      [(''jeschro_content'', PStr ''{...}'')]
   = Inr (Some [(''jobid'', PStr ''J1''), (''a'', PInt 1), (''jobdate'', PStr ''2024-01-01 10:00:00'')])"
    by (simp add: build_content_def inject_job_keys_def dict_get_def is_dict_def dict_items_def)
  from build_content_injects_job_keys [OF b] b show ?thesis by simp
qed




section \<open>Properties of the table placeholders\<close>

subsection \<open>Writing the cells of a table\<close>








lemma split_nl_not_Nil: "split_nl s \<noteq> []"
  by (induction s) (auto split: list.splits)

lemma join_nl_Cons_char: "join_nl ((c # l) # ls) = c # join_nl (l # ls)"
  by (cases ls) simp_all

lemma join_split_nl: "join_nl (split_nl s) = s"
proof (induction s)
  case Nil
  show ?case by simp
next
  case (Cons c cs)
  obtain l ls where sp: "split_nl cs = l # ls"
    using split_nl_not_Nil [of cs] by (cases "split_nl cs") auto
  with Cons show ?case by (simp add: join_nl_Cons_char)
qed

lemma paragraph_text_new: "paragraph_text (new_paragraph l) = l"
  by (simp add: paragraph_text_def new_paragraph_def)

lemma cell_text_set_text: "cell_text (set_text s) = s"
  by (simp add: cell_text_def set_text_def comp_def paragraph_text_new join_split_nl)

text \<open>
  What \<open>set_table_font_size\<close> does to one cell.
\<close>

definition with_font_size :: "int \<Rightarrow> cell \<Rightarrow> cell" where
  "with_font_size fs c = map (\<lambda>p. p\<lparr>runs := map (\<lambda>r. r\<lparr>font_size := Some (Pt fs)\<rparr>) (runs p)\<rparr>) c"

lemma paragraph_text_font_size:
  "paragraph_text (p\<lparr>runs := map (\<lambda>r. r\<lparr>font_size := z\<rparr>) (runs p)\<rparr>) = paragraph_text p"
  by (simp add: paragraph_text_def comp_def)

lemma cell_text_with_font_size: "cell_text (with_font_size fs c) = cell_text c"
  by (simp add: cell_text_def with_font_size_def comp_def paragraph_text_font_size)

lemma rows_set_table_font_size:
  "rows (set_table_font_size t fs) = map (map (with_font_size fs)) (rows t)"
  by (simp add: set_table_font_size_def map_runs_def with_font_size_def)

lemma table_cell_set_table_font_size:
  "table_cell (set_table_font_size t fs) r c = map_sum id (with_font_size fs) (table_cell t r c)"
  by (simp add: table_cell_def rows_set_table_font_size)


subsection \<open>The two exits that change the slide\<close>

text \<open>
  The condition of the fallback exit, \<open>not isinstance(value, list) or not value\<close>, as a
  predicate of the content map and the anchor cell.
\<close>

definition no_valid_array :: "dict \<Rightarrow> cell \<Rightarrow> bool" where
  "no_valid_array content anchor =
     (let v = dict_get content (strip (py_slice (cell_text anchor) 8 (- 2))) (PList [])
      in \<not> is_list v \<or> list_items v = [])"

text \<open>
  An example: a placeholder table of one row, whose anchor cell names the array
  \<open>items\<close> and whose first paragraph has an 18 point bold font, beside a cell with a
  bold 18 point run; and a content map binding \<open>items\<close> to two records, the second
  without the key \<open>b\<close>.
\<close>

definition example_placeholder :: table where
  "example_placeholder =
     \<lparr>frame_left = 10, frame_top = 20, frame_width = 300, frame_height = 100,
      style_id = None,
      rows = [[[\<lparr>runs = [\<lparr>run_text = ''{{table:items}}'', font_size = None, font_bold = None\<rparr>],
                 para_font_size = Some (Pt 18), para_font_bold = Some True\<rparr>],
               [\<lparr>runs = [\<lparr>run_text = ''Total'', font_size = Some (Pt 18), font_bold = Some True\<rparr>],
                 para_font_size = None, para_font_bold = None\<rparr>]]]\<rparr>"



lemma example_anchor:
  "table_cell example_placeholder 0 0 =
     Inr (\<lparr>runs = [\<lparr>run_text = ''{{table:items}}'', font_size = None, font_bold = None\<rparr>],
            para_font_size = Some (Pt 18), para_font_bold = Some True\<rparr> # [])"
  by (simp add: table_cell_def example_placeholder_def)




lemma empty_first_record_raises:
  "process_table_placeholder (\<lambda>v. []) (Some ''S'') example_placeholder
     [(''items'', PList [PDict []])]
   = Inl ZeroDivisionError"
  by code_simp




lemma fallback_outcome:
  assumes "table_cell t 0 0 = Inr anchor" and "no_valid_array content anchor"
  shows "process_table_placeholder cs sid t content
         = Inr (Kept (set_table_font_size
                  (t\<lparr>rows := (rows t)[0 := (rows t ! 0)[0 := set_text ''n/a'']]\<rparr>) 11))"
proof -
  from assms(1) have "0 < length (rows t) \<and> 0 < length (rows t ! 0)"
    by (auto simp: table_cell_def split: if_splits)
  then have "set_cell_text t 0 0 ''n/a''
             = Inr (t\<lparr>rows := (rows t)[0 := (rows t ! 0)[0 := set_text ''n/a'']]\<rparr>)"
    by (simp add: set_cell_text_def)
  with assms show ?thesis
    by (auto simp: process_table_placeholder_def no_valid_array_def Let_def)
qed

text \<open>
  Claim C4, as the code has it. When the looked-up value is absent, not a list or an
  empty list, the table stays on the slide (no table is created), with its position,
  size and style; its anchor cell holds the single run \<open>n/a\<close> at 11 points; and every
  other cell keeps its paragraphs and the text and bold flag of its runs, while the font
  size of every run in it is set to 11 points.
\<close>

theorem fallback_keeps_table:
  assumes "table_cell t 0 0 = Inr anchor" and "no_valid_array content anchor"
  shows "\<exists>t'. process_table_placeholder cs sid t content = Inr (Kept t')
           \<and> frame_left t' = frame_left t \<and> frame_top t' = frame_top t
           \<and> frame_width t' = frame_width t \<and> frame_height t' = frame_height t
           \<and> style_id t' = style_id t
           \<and> table_cell t' 0 0 = Inr (with_font_size 11 (set_text ''n/a''))
           \<and> map_sum id cell_text (table_cell t' 0 0) = Inr ''n/a''
           \<and> (\<forall>r c. (r, c) \<noteq> (0, 0) \<longrightarrow>
                 table_cell t' r c = map_sum id (with_font_size 11) (table_cell t r c))"
proof -
  let ?u = "t\<lparr>rows := (rows t)[0 := (rows t ! 0)[0 := set_text ''n/a'']]\<rparr>"
  let ?t' = "set_table_font_size ?u 11"
  from assms(1) have in_range: "0 < length (rows t)" "0 < length (rows t ! 0)"
    by (auto simp: table_cell_def split: if_splits)
  have p: "process_table_placeholder cs sid t content = Inr (Kept ?t')"
    using assms by (rule fallback_outcome)
  have frame: "frame_left ?t' = frame_left t" "frame_top ?t' = frame_top t"
    "frame_width ?t' = frame_width t" "frame_height ?t' = frame_height t"
    "style_id ?t' = style_id t"
    by (simp_all add: set_table_font_size_def map_runs_def)
  have u0: "table_cell ?u 0 0 = Inr (set_text ''n/a'')"
    using in_range by (simp add: table_cell_def)
  have a: "table_cell ?t' 0 0 = Inr (with_font_size 11 (set_text ''n/a''))"
    by (simp add: table_cell_set_table_font_size u0)
  have anchor_text: "map_sum id cell_text (table_cell ?t' 0 0) = Inr ''n/a''"
    by (simp add: a cell_text_with_font_size cell_text_set_text)
  have other: "table_cell ?u r c = table_cell t r c" if "(r, c) \<noteq> (0, 0)" for r c
  proof (cases "r = 0")
    case True
    with that have "c \<noteq> 0" by simp
    with True in_range show ?thesis by (simp add: table_cell_def)
  next
    case False
    then show ?thesis by (simp add: table_cell_def)
  qed
  have "\<forall>r c. (r, c) \<noteq> (0, 0) \<longrightarrow>
          table_cell ?t' r c = map_sum id (with_font_size 11) (table_cell t r c)"
    using other by (simp add: table_cell_set_table_font_size)
  with p frame a anchor_text show ?thesis by blast
qed

text \<open>
  Claim C4 as stated fails: the table is not unchanged outside its anchor cell.
  \<open>set_table_font_size(table, 11)\<close> runs over the whole table, and the 18 point run of
  the second cell of the example comes out at 11 points.
\<close>

theorem fallback_restyles_other_cells:
  "process_table_placeholder (\<lambda>v. []) None example_placeholder []
   = Inr (Kept
       \<lparr>frame_left = 10, frame_top = 20, frame_width = 300, frame_height = 100,
        style_id = None,
        rows = [[[\<lparr>runs = [\<lparr>run_text = ''n/a'', font_size = Some (Pt 11), font_bold = None\<rparr>],
                   para_font_size = None, para_font_bold = None\<rparr>],
                 [\<lparr>runs = [\<lparr>run_text = ''Total'', font_size = Some (Pt 11), font_bold = Some True\<rparr>],
                   para_font_size = None, para_font_bold = None\<rparr>]]]\<rparr>)
   \<and> table_cell example_placeholder 0 1
       = Inr [\<lparr>runs = [\<lparr>run_text = ''Total'', font_size = Some (Pt 18), font_bold = Some True\<rparr>],
                para_font_size = None, para_font_bold = None\<rparr>]
   \<and> Pt 11 \<noteq> Pt 18"
  by code_simp

theorem fallback_keeps_table_witness:
  "process_table_placeholder (\<lambda>v. []) None example_placeholder []
   = Inr (Kept
       \<lparr>frame_left = 10, frame_top = 20, frame_width = 300, frame_height = 100,
        style_id = None,
        rows = [[[\<lparr>runs = [\<lparr>run_text = ''n/a'', font_size = Some (Pt 11), font_bold = None\<rparr>],
                   para_font_size = None, para_font_bold = None\<rparr>],
                 [\<lparr>runs = [\<lparr>run_text = ''Total'', font_size = Some (Pt 11), font_bold = Some True\<rparr>],
                   para_font_size = None, para_font_bold = None\<rparr>]]]\<rparr>)
   \<and> no_valid_array []
        [\<lparr>runs = [\<lparr>run_text = ''{{table:items}}'', font_size = None, font_bold = None\<rparr>],
            para_font_size = Some (Pt 18), para_font_bold = Some True\<rparr>]"
proof -
  have n: "no_valid_array []
        [\<lparr>runs = [\<lparr>run_text = ''{{table:items}}'', font_size = None, font_bold = None\<rparr>],
            para_font_size = Some (Pt 18), para_font_bold = Some True\<rparr>]"
    by code_simp
  have e: "process_table_placeholder (\<lambda>v. []) None example_placeholder []
   = Inr (Kept
       \<lparr>frame_left = 10, frame_top = 20, frame_width = 300, frame_height = 100,
        style_id = None,
        rows = [[[\<lparr>runs = [\<lparr>run_text = ''n/a'', font_size = Some (Pt 11), font_bold = None\<rparr>],
                   para_font_size = None, para_font_bold = None\<rparr>],
                 [\<lparr>runs = [\<lparr>run_text = ''Total'', font_size = Some (Pt 11), font_bold = Some True\<rparr>],
                   para_font_size = None, para_font_bold = None\<rparr>]]]\<rparr>)"
    by code_simp
  from fallback_keeps_table [OF example_anchor n, of "\<lambda>v. []" None] e n show ?thesis by simp
qed

subsection \<open>The loop over the shapes of a slide\<close>








lemma table_pass_replace_last:
  assumes "process_table_placeholder cs sid t content = Inr (Replaced new_table)"
  shows "table_pass cs sid content visited [TableShape t]
         = Some (Inr (visited @ [TableShape new_table]))"
  using assms by (subst table_pass.simps) simp












end
